theory Spec2Isabelle
  imports Complex_Main
begin

section \<open>Data model of the lobby routes\<close>

text \<open>
  The routes of the lobby router (\<^verbatim>\<open>router.get("/:pin")\<close>, \<^verbatim>\<open>router.delete("/:pin")\<close>,
  \<^verbatim>\<open>router.post("/:pin/join")\<close>, \<^verbatim>\<open>router.post("/:pin/name")\<close>) are embedded as functions
  from the collection of lobby documents and the request to the response sent, the
  collection afterwards, the database writes issued and the socket events emitted.
\<close>

subsection \<open>JSON values of a request body\<close>

text \<open>
  A field of \<^verbatim>\<open>req.body\<close> is absent (\<^verbatim>\<open>undefined\<close>), a string, or any other JSON value
  (null, a boolean, a number, an array, an object). The routes only ever test such a
  value for being a string of some shape and compare it with \<^verbatim>\<open>===\<close> to a string or to
  \<^verbatim>\<open>undefined\<close>; a value of the third kind is never a string and never \<^verbatim>\<open>===\<close> to one.
  Strings are sequences of code units, \<^verbatim>\<open>length\<close> counts them.
\<close>

datatype jsval = Undefined | Str string | Other

record body =
  body_passphrase :: jsval
  body_name :: jsval

text \<open>\<^verbatim>\<open>req.token.data\<close>: the account a registered requester is logged in with.\<close>

record token_data =
  token_id :: nat
  token_name :: string

record request =
  params_pin :: string
  token :: "token_data option"
  req_body :: body

subsection \<open>Lobby documents\<close>

datatype GameStatus = WAITING | PLAYING | CLOSED

record Player =
  name :: string
  socketId :: "string option"
  confirmed :: bool
  registered :: bool

text \<open>
  The fields of a lobby document that the routes read. \<^verbatim>\<open>maxPlayers\<close> is a JavaScript
  number: the creation route validates it with \<^verbatim>\<open>Joi.number().min(2).max(8)\<close> (to 6 with the
  short deck), which lets a fraction such as 2.5 pass, and the sibling schema of
  \<^verbatim>\<open>models/archive\<close> stores it as \<^verbatim>\<open>Number\<close>. It is a real number here; the specification's
  data model has an integer, which the theorems that need it assume
  (\<open>maxPlayers lobby \<in> \<int>\<close>). \<^verbatim>\<open>passphrase\<close> is absent unless the lobby was created with 2FA.
\<close>

record Lobby =
  lobby_id :: nat
  pin :: string
  passphrase :: "string option"
  with2FA :: bool
  maxPlayers :: real
  status :: GameStatus
  owner :: nat
  players :: "Player list"

subsection \<open>Responses\<close>

text \<open>
  The constants of \<^verbatim>\<open>error\<close> (package \<^verbatim>\<open>shared\<close>) are kept symbolic; a message written
  in the route as a string literal is \<open>Literal\<close>.
\<close>

datatype message =
    BAD_REQUEST | NON_EXISTENT_LOBBY | LOBBY_FULL | INVALID_PASSPHRASE
  | UNAUTHORIZED | INTERNAL_SERVER_ERROR | Literal string

datatype payload =
    NoData
  | Echo body
  | LobbyData string bool
  | Tokens string string

text \<open>
  \<^verbatim>\<open>res.status(code).json({status, message, err, extra, ...})\<close>: \<open>ok\<close> is the field
  \<^verbatim>\<open>status\<close> of the JSON, \<open>payload\<close> whatever else the JSON carries (\<^verbatim>\<open>data: req.body\<close>, the
  \<^verbatim>\<open>data\<close> of an inspected lobby, or \<^verbatim>\<open>token\<close> and \<^verbatim>\<open>refreshToken\<close>).
\<close>

record response =
  code :: nat
  ok :: bool
  message :: message
  err :: "string option"
  extra :: "message option"
  payload :: payload

definition json :: "nat \<Rightarrow> bool \<Rightarrow> message \<Rightarrow> response" where
  "json c s m = \<lparr>code = c, ok = s, message = m, err = None, extra = None, payload = NoData\<rparr>"

text \<open>The responses of the routes, named after the error kinds of the specification.\<close>

definition NotFound :: response where
  "NotFound = json 404 False NON_EXISTENT_LOBBY"

text \<open>
  Both the passphrase shape check and the name shape check of the join route answer
  with this response (the specification calls the second one BadName).
\<close>

definition BadRequest :: "body \<Rightarrow> response" where
  "BadRequest b = (json 400 False BAD_REQUEST)\<lparr>payload := Echo b\<rparr>"

definition LobbyFull :: response where
  "LobbyFull = (json 400 False LOBBY_FULL)\<lparr>err := Some ''LOBBY_FULL''\<rparr>"

definition InvalidPassphrase :: response where
  "InvalidPassphrase = (json 401 False INVALID_PASSPHRASE)\<lparr>err := Some ''INVALID_PASSPHRASE''\<rparr>"

definition AlreadyJoined :: response where
  "AlreadyJoined = json 400 False (Literal ''Can't join the game twice.'')"

definition NameTaken :: response where
  "NameTaken = (json 400 False (Literal ''Name already taken.''))\<lparr>err := Some ''BAD_INFO''\<rparr>"

definition PinValid :: "payload \<Rightarrow> response" where
  "PinValid p = (json 200 True (Literal ''Pin Valid''))\<lparr>payload := p\<rparr>"

definition NameTakenProbe :: response where
  "NameTakenProbe = json 400 False (Literal ''Name already taken.'')"

definition NameFree :: response where
  "NameFree = json 200 True (Literal ''Name not taken.'')"

definition MissingName :: response where
  "MissingName = json 400 False BAD_REQUEST"

definition InspectFull :: response where
  "InspectFull = json 400 False LOBBY_FULL"

definition LobbyExists :: "string \<Rightarrow> bool \<Rightarrow> response" where
  "LobbyExists p w = (json 200 True (Literal ''Lobby exists.''))\<lparr>payload := LobbyData p w\<rparr>"

definition Unauthorized :: response where
  "Unauthorized = (json 401 False (Literal ''Unable to delete the game''))\<lparr>extra := Some UNAUTHORIZED\<rparr>"

definition DeleteFailed :: response where
  "DeleteFailed = (json 500 False INTERNAL_SERVER_ERROR)
     \<lparr>extra := Some (Literal ''Couldn't delete the game at this time.'')\<rparr>"

definition Deleted :: response where
  "Deleted = json 200 True (Literal ''Successfully delete game lobby.'')"

subsection \<open>The collection of lobby documents\<close>

text \<open>
  The collection is the list of its documents in their natural order, so that a query
  by pin that matches several documents answers with the first, as the database does.
\<close>

type_synonym collection = "Lobby list"

text \<open>\<^verbatim>\<open>Lobby.findOne({pin})\<close>\<close>

definition findOne :: "collection \<Rightarrow> string \<Rightarrow> Lobby option" where
  "findOne db p = find (\<lambda>d. pin d = p) db"

text \<open>\<^verbatim>\<open>Lobby.findOneAndUpdate({_id}, {$set: {'players': ps}})\<close>: the first match is updated.\<close>

fun findOneAndUpdate :: "collection \<Rightarrow> nat \<Rightarrow> Player list \<Rightarrow> collection" where
  "findOneAndUpdate [] i ps = []"
| "findOneAndUpdate (d # db) i ps =
     (if lobby_id d = i then d\<lparr>players := ps\<rparr> # db else d # findOneAndUpdate db i ps)"

text \<open>\<^verbatim>\<open>Lobby.deleteOne({pin})\<close>: the first match is removed.\<close>

fun deleteOne :: "collection \<Rightarrow> string \<Rightarrow> collection" where
  "deleteOne [] p = []"
| "deleteOne (d # db) p = (if pin d = p then db else d # deleteOne db p)"

datatype db_write = UpdatePlayers nat "Player list" | DeleteByPin string

text \<open>\<^verbatim>\<open>emitLobbyEvent(pin, ClientEvents.CLOSE, {reason})\<close>\<close>

datatype event = Close string string

text \<open>What a route has done when it returns.\<close>

record outcome =
  reply :: response
  stored :: collection
  writes :: "db_write list"
  emitted :: "event list"

definition respond :: "response \<Rightarrow> collection \<Rightarrow> outcome" where
  "respond r db = \<lparr>reply = r, stored = db, writes = [], emitted = []\<rparr>"

section \<open>The routes\<close>

subsection \<open>Validators and helpers\<close>

text \<open>
  \<^verbatim>\<open>Joi.string().length(4).validate(v)\<close> has no error: the schema is not required, so an
  absent value passes; a string passes when it has exactly four code units; nothing
  else is a string.
\<close>

definition passphraseValidator :: "jsval \<Rightarrow> bool" where
  "passphraseValidator v =
     (case v of Undefined \<Rightarrow> True | Str s \<Rightarrow> length s = 4 | Other \<Rightarrow> False)"

text \<open>
  The class \<^verbatim>\<open>\s\<close> of a JavaScript regular expression, on the code units below 256:
  tab, line feed, vertical tab, form feed, carriage return, space, no-break space.
\<close>

definition is_space :: "char \<Rightarrow> bool" where
  "is_space c = ((of_char c :: nat) \<in> {9, 10, 11, 12, 13, 32, 160})"

text \<open>
  \<^verbatim>\<open>Joi.string().regex(/^[^\s]{1,20}$/).min(1).max(20).required().validate(v)\<close> has no
  error.
\<close>

definition nameValidator :: "jsval \<Rightarrow> bool" where
  "nameValidator v =
     (case v of
        Str s \<Rightarrow> 1 \<le> length s \<and> length s \<le> 20 \<and> list_all (\<lambda>c. \<not> is_space c) s
      | _ \<Rightarrow> False)"

text \<open>
  Modelled from the spec: \<^verbatim>\<open>checkIfNameFree\<close> of \<^verbatim>\<open>utils/lobby\<close> is not among the sources.
  The specification: true iff no confirmed slot in \<^verbatim>\<open>lobby.players\<close> has \<^verbatim>\<open>name\<close> equal to
  the given name (exact, case-sensitive match). The name route hands it the body's field
  unvalidated, so the given name is a JSON value; only a string equals a slot's name.
\<close>

definition checkIfNameFree :: "Lobby \<Rightarrow> jsval \<Rightarrow> bool" where
  "checkIfNameFree lobby v =
     (\<not> list_ex (\<lambda>p. confirmed p \<and> Str (name p) = v) (players lobby))"

text \<open>\<^verbatim>\<open>Array.prototype.findIndex\<close>: the first index whose element satisfies, else -1.\<close>

fun findIndex :: "('a \<Rightarrow> bool) \<Rightarrow> 'a list \<Rightarrow> int" where
  "findIndex P [] = - 1"
| "findIndex P (x # xs) =
     (if P x then 0 else (let i = findIndex P xs in if i < 0 then - 1 else i + 1))"

text \<open>
  \<^verbatim>\<open>xs[i] = x\<close> for an index that \<^verbatim>\<open>findIndex\<close> returned: within the array the element is
  replaced; at -1 the assignment adds a property named "-1" to the array object and
  leaves its elements and its length as they were.
\<close>

definition assignIndex :: "'a list \<Rightarrow> int \<Rightarrow> 'a \<Rightarrow> 'a list" where
  "assignIndex xs i x = (if 0 \<le> i \<and> i < int (length xs) then xs[nat i := x] else xs)"

text \<open>\<^verbatim>\<open>lobby.passphrase\<close> as a JavaScript value.\<close>

definition stored_passphrase :: "Lobby \<Rightarrow> jsval" where
  "stored_passphrase lobby = (case passphrase lobby of None \<Rightarrow> Undefined | Some s \<Rightarrow> Str s)"

text \<open>\<^verbatim>\<open>players.length === lobby.maxPlayers || lobby.status !== GameStatus.WAITING\<close>\<close>

definition noFreeSlots :: "Lobby \<Rightarrow> bool" where
  "noFreeSlots lobby =
     (real (length (filter confirmed (players lobby))) = maxPlayers lobby \<or> status lobby \<noteq> WAITING)"

subsection \<open>POST /:pin/join\<close>

text \<open>
  The decision of the join route on the lobby that \<^verbatim>\<open>findOne\<close> returned: a rejection
  with its response, or the success response together with the players array that the
  route then stores.
\<close>

datatype admission = Reject response | Accept response "Player list"

text \<open>
  The slot placement: \<^verbatim>\<open>if (lobby.players.length === lobby.maxPlayers)\<close> the first
  unconfirmed entry is overwritten, otherwise the player is pushed.
\<close>

definition place :: "Lobby \<Rightarrow> Player \<Rightarrow> Player list" where
  "place lobby player =
     (if real (length (players lobby)) = maxPlayers lobby
      then assignIndex (players lobby) (findIndex (\<lambda>p. \<not> confirmed p) (players lobby)) player
      else players lobby @ [player])"

text \<open>
  From \<^verbatim>\<open>createTokens({name, pin})\<close> to the response. \<^verbatim>\<open>createTokens\<close> (module
  \<^verbatim>\<open>authentication\<close>) is a parameter of the model.
\<close>

definition accept ::
  "(string \<Rightarrow> string \<Rightarrow> string \<times> string) \<Rightarrow> Lobby \<Rightarrow> request \<Rightarrow> string \<Rightarrow> bool \<Rightarrow> admission" where
  "accept createTokens lobby req n reg =
     (let (token, refreshToken) = createTokens n (params_pin req);
          player = \<lparr>name = n, socketId = None, confirmed = False, registered = reg\<rparr>
      in Accept (PinValid (if \<not> reg then Tokens token refreshToken else NoData))
           (place lobby player))"

text \<open>\<^verbatim>\<open><string>req.body.name\<close>, reached only with a value that \<open>nameValidator\<close> let pass.\<close>

definition asString :: "jsval \<Rightarrow> string" where
  "asString v = (case v of Str s \<Rightarrow> s | _ \<Rightarrow> [])"

text \<open>
  The slot that the route builds for a request that passed every check,
  \<^verbatim>\<open>{name, socketId: null, confirmed: false, registered}\<close>, with \<^verbatim>\<open>name\<close> and \<^verbatim>\<open>registered\<close> as
  the two branches of \<^verbatim>\<open>if (req.token)\<close> set them.
\<close>

definition joiner :: "request \<Rightarrow> Player" where
  "joiner req =
     \<lparr>name = (case token req of
                Some t \<Rightarrow> token_name t
              | None \<Rightarrow> asString (body_name (req_body req))),
      socketId = None, confirmed = False, registered = (token req \<noteq> None)\<rparr>"

definition join_lobby ::
  "(string \<Rightarrow> string \<Rightarrow> string \<times> string) \<Rightarrow> Lobby \<Rightarrow> request \<Rightarrow> admission" where
  "join_lobby createTokens lobby req =
     (if \<not> passphraseValidator (body_passphrase (req_body req))
        then Reject (BadRequest (req_body req))
      else if noFreeSlots lobby
        then Reject LobbyFull
      else if with2FA lobby \<and> stored_passphrase lobby \<noteq> body_passphrase (req_body req)
        then Reject InvalidPassphrase
      else (case token req of
         Some t \<Rightarrow>
           if find (\<lambda>p. name p = token_name t) (filter registered (players lobby)) \<noteq> None
             then Reject AlreadyJoined
           else accept createTokens lobby req (token_name t) True
       | None \<Rightarrow>
           if \<not> nameValidator (body_name (req_body req))
             then Reject (BadRequest (req_body req))
           else if \<not> checkIfNameFree lobby (body_name (req_body req))
             then Reject NameTaken
           else accept createTokens lobby req (asString (body_name (req_body req))) False))"

definition join_route ::
  "(string \<Rightarrow> string \<Rightarrow> string \<times> string) \<Rightarrow> collection \<Rightarrow> request \<Rightarrow> outcome" where
  "join_route createTokens db req =
     (case findOne db (params_pin req) of
        None \<Rightarrow> respond NotFound db
      | Some lobby \<Rightarrow>
          (case join_lobby createTokens lobby req of
             Reject r \<Rightarrow> respond r db
           | Accept r ps \<Rightarrow>
               \<lparr>reply = r,
                stored = findOneAndUpdate db (lobby_id lobby) ps,
                writes = [UpdatePlayers (lobby_id lobby) ps],
                emitted = []\<rparr>))"

subsection \<open>GET /:pin\<close>

definition get_route :: "collection \<Rightarrow> request \<Rightarrow> outcome" where
  "get_route db req =
     (case findOne db (params_pin req) of
        None \<Rightarrow> respond NotFound db
      | Some lobby \<Rightarrow>
          if noFreeSlots lobby then respond InspectFull db
          else respond (LobbyExists (pin lobby) (with2FA lobby)) db)"

subsection \<open>POST /:pin/name\<close>

definition name_route :: "collection \<Rightarrow> request \<Rightarrow> outcome" where
  "name_route db req =
     (case findOne db (params_pin req) of
        None \<Rightarrow> respond NotFound db
      | Some lobby \<Rightarrow>
          if body_name (req_body req) = Undefined then respond MissingName db
          else if \<not> checkIfNameFree lobby (body_name (req_body req))
            then respond NameTakenProbe db
          else respond NameFree db)"

subsection \<open>DELETE /:pin\<close>

text \<open>
  \<^verbatim>\<open>lobby.owner._id.equals(req.token?.data.id)\<close>: false when the request carries no token.
\<close>

definition ownerEquals :: "Lobby \<Rightarrow> request \<Rightarrow> bool" where
  "ownerEquals lobby req = (case token req of None \<Rightarrow> False | Some t \<Rightarrow> owner lobby = token_id t)"

text \<open>
  \<open>delete_err\<close> says whether the database hands an error to the callback of
  \<^verbatim>\<open>Lobby.deleteOne\<close>; the document is then still stored.
\<close>

definition delete_route :: "bool \<Rightarrow> collection \<Rightarrow> request \<Rightarrow> outcome" where
  "delete_route delete_err db req =
     (case findOne db (params_pin req) of
        None \<Rightarrow> respond NotFound db
      | Some lobby \<Rightarrow>
          if \<not> ownerEquals lobby req then respond Unauthorized db
          else if delete_err
            then \<lparr>reply = DeleteFailed, stored = db,
                  writes = [DeleteByPin (params_pin req)], emitted = []\<rparr>
          else \<lparr>reply = Deleted, stored = deleteOne db (params_pin req),
                writes = [DeleteByPin (params_pin req)],
                emitted = [Close (params_pin req) ''lobby_closed'']\<rparr>)"

subsection \<open>The registered-duplicate condition as the specification words it\<close>

text \<open>
  The specification's third precondition of a join speaks of a name that already
  occupies a slot that is both registered and confirmed. This predicate follows those
  words; the route itself tests \<^verbatim>\<open>lobby.players.filter(p => p.registered).find(...)\<close> (see
  \<open>join_lobby\<close>).
\<close>

definition registeredConfirmedSlot :: "Lobby \<Rightarrow> string \<Rightarrow> bool" where
  "registeredConfirmedSlot lobby n =
     list_ex (\<lambda>p. name p = n \<and> registered p \<and> confirmed p) (players lobby)"

section \<open>Example lobbies and requests\<close>

text \<open>Concrete data for the instances at which the theorems below are applied.\<close>

definition exTokens :: "string \<Rightarrow> string \<Rightarrow> string \<times> string" where
  "exTokens n p = (''access/'' @ n @ ''/'' @ p, ''refresh/'' @ n @ ''/'' @ p)"

definition bob :: Player where
  "bob = \<lparr>name = ''bob'', socketId = Some ''s1'', confirmed = True, registered = True\<rparr>"

definition carol :: Player where
  "carol = \<lparr>name = ''carol'', socketId = Some ''s2'', confirmed = True, registered = False\<rparr>"

definition alicePending :: Player where
  "alicePending = \<lparr>name = ''alice'', socketId = None, confirmed = False, registered = True\<rparr>"

definition davePending :: Player where
  "davePending = \<lparr>name = ''dave'', socketId = None, confirmed = False, registered = False\<rparr>"

text \<open>A lobby with 2FA, just created: only the owner's slot.\<close>

definition lobbyOpen :: Lobby where
  "lobbyOpen = \<lparr>lobby_id = 1, pin = ''482913'', passphrase = Some ''Q7ZK'', with2FA = True,
     maxPlayers = 4, status = WAITING, owner = 7, players = [bob]\<rparr>"

text \<open>A registered account holds a slot that was never confirmed.\<close>

definition lobbyPending :: Lobby where
  "lobbyPending = \<lparr>lobby_id = 2, pin = ''111111'', passphrase = None, with2FA = False,
     maxPlayers = 4, status = WAITING, owner = 7, players = [bob, alicePending]\<rparr>"

text \<open>Every slot confirmed.\<close>

definition lobbyFull :: Lobby where
  "lobbyFull = \<lparr>lobby_id = 3, pin = ''222222'', passphrase = None, with2FA = False,
     maxPlayers = 2, status = WAITING, owner = 7, players = [bob, carol]\<rparr>"

text \<open>The game has started.\<close>

definition lobbyPlaying :: Lobby where
  "lobbyPlaying = \<lparr>lobby_id = 4, pin = ''333333'', passphrase = None, with2FA = False,
     maxPlayers = 4, status = PLAYING, owner = 7, players = [bob, carol]\<rparr>"

text \<open>A lobby whose \<^verbatim>\<open>maxPlayers\<close> is the fraction 2.5, with two confirmed players.\<close>

definition lobbyFraction :: Lobby where
  "lobbyFraction = \<lparr>lobby_id = 6, pin = ''555555'', passphrase = None, with2FA = False,
     maxPlayers = 5 / 2, status = WAITING, owner = 7, players = [bob, carol]\<rparr>"

text \<open>All slots allocated, one of them never confirmed.\<close>

definition lobbyStale :: Lobby where
  "lobbyStale = \<lparr>lobby_id = 5, pin = ''444444'', passphrase = None, with2FA = False,
     maxPlayers = 3, status = WAITING, owner = 7, players = [bob, davePending, carol]\<rparr>"

text \<open>A request without a token, and one with the token of an account.\<close>

definition anonymous :: "string \<Rightarrow> jsval \<Rightarrow> jsval \<Rightarrow> request" where
  "anonymous p pass n =
     \<lparr>params_pin = p, token = None, req_body = \<lparr>body_passphrase = pass, body_name = n\<rparr>\<rparr>"

definition account :: "string \<Rightarrow> nat \<Rightarrow> string \<Rightarrow> jsval \<Rightarrow> request" where
  "account p i n pass =
     \<lparr>params_pin = p, token = Some \<lparr>token_id = i, token_name = n\<rparr>,
      req_body = \<lparr>body_passphrase = pass, body_name = Undefined\<rparr>\<rparr>"

lemmas response_defs =
  json_def NotFound_def BadRequest_def LobbyFull_def InvalidPassphrase_def AlreadyJoined_def
  NameTaken_def PinValid_def NameTakenProbe_def NameFree_def MissingName_def InspectFull_def
  LobbyExists_def Unauthorized_def DeleteFailed_def Deleted_def

lemmas example_defs =
  exTokens_def bob_def carol_def alicePending_def davePending_def lobbyOpen_def
  lobbyPending_def lobbyFull_def lobbyPlaying_def lobbyStale_def lobbyFraction_def
  anonymous_def account_def

lemmas route_defs =
  join_route_def join_lobby_def accept_def place_def assignIndex_def asString_def
  noFreeSlots_def stored_passphrase_def passphraseValidator_def nameValidator_def
  is_space_def checkIfNameFree_def findOne_def respond_def ownerEquals_def
  get_route_def name_route_def delete_route_def

section \<open>Auxiliary facts\<close>

lemma findIndex_bounds: "- 1 \<le> findIndex P xs \<and> findIndex P xs < int (length xs)"
  by (induction xs) (auto simp: Let_def)

lemma findIndex_neg_iff: "(findIndex P xs < 0) = (\<forall>x\<in>set xs. \<not> P x)"
proof (induction xs)
  case Nil
  show ?case by simp
next
  case (Cons x xs)
  have "- 1 \<le> findIndex P xs" using findIndex_bounds [of P xs] by simp
  with Cons show ?case by (auto simp: Let_def)
qed

lemma findIndex_first:
  "0 \<le> findIndex P xs \<Longrightarrow>
     P (xs ! nat (findIndex P xs)) \<and> (\<forall>j<nat (findIndex P xs). \<not> P (xs ! j))"
proof (induction xs)
  case Nil
  then show ?case by simp
next
  case (Cons x xs)
  show ?case
  proof (cases "P x")
    case True
    then show ?thesis by simp
  next
    case False
    with Cons.prems have nn: "0 \<le> findIndex P xs"
      by (simp add: Let_def split: if_splits)
    have eq: "findIndex P (x # xs) = findIndex P xs + 1"
      using False nn by (simp add: Let_def)
    have n: "nat (findIndex P xs + 1) = Suc (nat (findIndex P xs))"
      using nn by simp
    from Cons.IH [OF nn] False show ?thesis
      unfolding eq n by (auto simp: nth_Cons split: nat.splits)
  qed
qed

lemma all_satisfy_count: "(\<forall>x\<in>set xs. P x) \<Longrightarrow> length (filter P xs) = length xs"
  by (induction xs) auto

lemma free_slot_unconfirmed:
  assumes "\<not> noFreeSlots lobby" and "real (length (players lobby)) = maxPlayers lobby"
  shows "\<exists>p\<in>set (players lobby). \<not> confirmed p"
proof (rule ccontr)
  assume "\<not> (\<exists>p\<in>set (players lobby). \<not> confirmed p)"
  then have "length (filter confirmed (players lobby)) = length (players lobby)"
    by (intro all_satisfy_count) simp
  with assms show False by (simp add: noFreeSlots_def)
qed

lemma accept_cases:
  assumes "accept ct lobby req n reg = Accept r ps"
  shows "ps = place lobby \<lparr>name = n, socketId = None, confirmed = False, registered = reg\<rparr>"
    and "r = PinValid (if reg then NoData
                       else Tokens (fst (ct n (params_pin req))) (snd (ct n (params_pin req))))"
  using assms by (auto simp: accept_def Let_def split: prod.splits)

lemma join_lobby_Accept:
  assumes "join_lobby ct lobby req = Accept r ps"
  shows "passphraseValidator (body_passphrase (req_body req))"
    and "\<not> noFreeSlots lobby"
    and "\<not> (with2FA lobby \<and> stored_passphrase lobby \<noteq> body_passphrase (req_body req))"
    and "\<exists>n. accept ct lobby req n (token req \<noteq> None) = Accept r ps"
  using assms by (auto simp: join_lobby_def split: if_splits option.splits)

lemma join_lobby_Reject_not_ok: "join_lobby ct lobby req = Reject r \<Longrightarrow> \<not> ok r"
  by (auto simp: join_lobby_def accept_def Let_def response_defs
      split: if_splits option.splits prod.splits)

lemma join_lobby_Accept_ok: "join_lobby ct lobby req = Accept r ps \<Longrightarrow> ok r"
  by (auto simp: join_lobby_def accept_def Let_def response_defs
      split: if_splits option.splits prod.splits)

lemma filter_update_unsat:
  "i < length xs \<Longrightarrow> \<not> P (xs ! i) \<Longrightarrow> \<not> P x \<Longrightarrow> filter P (xs[i := x]) = filter P xs"
proof (induction xs arbitrary: i)
  case Nil
  then show ?case by simp
next
  case (Cons y ys)
  then show ?case by (cases i) auto
qed

lemma place_length:
  "length (place lobby p) =
     (if real (length (players lobby)) = maxPlayers lobby then length (players lobby)
      else Suc (length (players lobby)))"
  by (simp add: place_def assignIndex_def)

lemma assignIndex_unsat:
  assumes "\<not> P x"
  shows "filter P (assignIndex xs (findIndex (\<lambda>q. \<not> P q) xs) x) = filter P xs"
proof (cases "0 \<le> findIndex (\<lambda>q. \<not> P q) xs")
  case False
  then show ?thesis by (simp add: assignIndex_def)
next
  case True
  let ?i = "findIndex (\<lambda>q. \<not> P q) xs"
  have u: "\<not> P (xs ! nat ?i)" using findIndex_first [OF True] by simp
  have b: "nat ?i < length xs" using True findIndex_bounds [of "\<lambda>q. \<not> P q" xs] by simp
  from b u assms have "filter P (xs[nat ?i := x]) = filter P xs"
    by (rule filter_update_unsat)
  then show ?thesis by (simp add: assignIndex_def)
qed

lemma place_confirmed:
  "\<not> confirmed p \<Longrightarrow> filter confirmed (place lobby p) = filter confirmed (players lobby)"
  by (simp add: place_def assignIndex_unsat)

lemma join_route_found:
  assumes "findOne db (params_pin req) = Some lobby"
  shows "join_route ct db req =
     (case join_lobby ct lobby req of
        Reject r \<Rightarrow> respond r db
      | Accept r ps \<Rightarrow>
          \<lparr>reply = r, stored = findOneAndUpdate db (lobby_id lobby) ps,
           writes = [UpdatePlayers (lobby_id lobby) ps], emitted = []\<rparr>)"
  using assms by (simp add: join_route_def)

lemma join_route_ok:
  assumes "findOne db (params_pin req) = Some lobby"
    and "ok (reply (join_route ct db req))"
  shows "\<exists>ps. join_lobby ct lobby req = Accept (reply (join_route ct db req)) ps
           \<and> stored (join_route ct db req) = findOneAndUpdate db (lobby_id lobby) ps
           \<and> writes (join_route ct db req) = [UpdatePlayers (lobby_id lobby) ps]"
proof (cases "join_lobby ct lobby req")
  case (Reject r)
  then have "\<not> ok r" by (rule join_lobby_Reject_not_ok)
  with assms Reject show ?thesis by (simp add: join_route_found respond_def)
next
  case (Accept r ps)
  with assms(1) show ?thesis by (simp add: join_route_found)
qed

lemma join_route_not_ok:
  assumes "\<not> ok (reply (join_route ct db req))"
  shows "join_route ct db req = respond (reply (join_route ct db req)) db"
proof (cases "findOne db (params_pin req)")
  case None
  then show ?thesis by (simp add: join_route_def respond_def)
next
  case (Some lobby)
  show ?thesis
  proof (cases "join_lobby ct lobby req")
    case (Reject r)
    with Some show ?thesis by (simp add: join_route_found respond_def)
  next
    case (Accept r ps)
    then have "ok r" by (rule join_lobby_Accept_ok)
    with assms Some Accept show ?thesis by (simp add: join_route_found)
  qed
qed

lemma findOne_deleteOne:
  "distinct (map pin db) \<Longrightarrow> findOne (deleteOne db p) p = None"
proof (induction db)
  case Nil
  show ?case by (simp add: findOne_def)
next
  case (Cons d db)
  show ?case
  proof (cases "pin d = p")
    case True
    with Cons.prems have "p \<notin> pin ` set db" by auto
    then have "find (\<lambda>d. pin d = p) db = None" by (auto simp: find_None_iff)
    with True show ?thesis by (simp add: findOne_def)
  next
    case False
    with Cons show ?thesis by (simp add: findOne_def)
  qed
qed

lemma findOne_Some: "findOne db p = Some lobby \<Longrightarrow> lobby \<in> set db \<and> pin lobby = p"
  by (auto simp: findOne_def find_Some_iff)

lemma set_deleteOne:
  "distinct (map pin db) \<Longrightarrow> findOne db p = Some lobby \<Longrightarrow> set (deleteOne db p) = set db - {lobby}"
proof (induction db)
  case Nil
  then show ?case by (simp add: findOne_def)
next
  case (Cons d db)
  show ?case
  proof (cases "pin d = p")
    case True
    with Cons.prems(2) have eq: "lobby = d" by (simp add: findOne_def)
    from Cons.prems(1) have "d \<notin> set db" by auto
    with True eq show ?thesis by auto
  next
    case False
    with Cons.prems have f: "findOne db p = Some lobby" and di: "distinct (map pin db)"
      by (simp_all add: findOne_def)
    from findOne_Some [OF f] False have "lobby \<noteq> d" by auto
    with Cons.IH [OF di f] False show ?thesis by auto
  qed
qed

lemma assignIndex_inside:
  "0 \<le> i \<Longrightarrow> i < int (length xs) \<Longrightarrow> assignIndex xs i x = xs[nat i := x]"
  by (simp add: assignIndex_def)

lemma find_registered_iff:
  "(find (\<lambda>p. name p = n) (filter registered ps) \<noteq> None) = (\<exists>p\<in>set ps. registered p \<and> name p = n)"
  by (auto simp: find_None_iff)

lemma noFreeSlots_iff:
  assumes "real (length (filter confirmed (players lobby))) \<le> maxPlayers lobby"
  shows "noFreeSlots lobby =
    (\<not> (status lobby = WAITING \<and> real (length (filter confirmed (players lobby))) < maxPlayers lobby))"
  using assms by (auto simp: noFreeSlots_def)

lemma checkIfNameFree_iff:
  "checkIfNameFree lobby v = (\<not> (\<exists>p\<in>set (players lobby). confirmed p \<and> Str (name p) = v))"
  by (simp add: checkIfNameFree_def list_ex_iff)

lemma join_lobby_Accept_place:
  assumes "join_lobby ct lobby req = Accept r ps"
  shows "ps = place lobby (joiner req)"
  using assms
  by (auto simp: join_lobby_def accept_def joiner_def Let_def
      split: if_splits option.splits prod.splits)

lemma join_lobby_Accept_name:
  assumes "join_lobby ct lobby req = Accept r ps" and "token req = None"
  shows "body_name (req_body req) = Str (name (joiner req))"
proof -
  from assms have "nameValidator (body_name (req_body req))"
    by (auto simp: join_lobby_def split: if_splits)
  then obtain s where "body_name (req_body req) = Str s"
    by (cases "body_name (req_body req)") (simp_all add: nameValidator_def)
  with assms(2) show ?thesis by (simp add: joiner_def asString_def)
qed

lemma next_slot_within:
  assumes "m \<in> \<int>" and "real n \<le> m" and "real n \<noteq> m"
  shows "real (Suc n) \<le> m"
proof -
  from assms(1) obtain k :: int where k: "m = of_int k" by (auto elim: Ints_cases)
  from assms(2,3) have "real n < of_int k" unfolding k by simp
  then have "int n < k" by linarith
  then have "int (Suc n) \<le> k" by simp
  then have "real_of_int (int (Suc n)) \<le> of_int k" by (simp only: of_int_le_iff)
  then show ?thesis unfolding k by simp
qed

section \<open>The claims\<close>

subsection \<open>C1: joining twice with an account\<close>

text \<open>
  Claim C1, as stated: a join with an account is rejected with AlreadyJoined exactly when
  the account's name occupies a slot that is both registered and confirmed; a registered
  name held only by an unconfirmed slot does not trigger the rejection. The route does
  otherwise: alice's account holds an unconfirmed slot only, and her join is answered with
  "Can't join the game twice."
\<close>

theorem C1_counterexample:
  "reply (join_route exTokens [lobbyPending] (account ''111111'' 9 ''alice'' Undefined)) = AlreadyJoined
   \<and> \<not> registeredConfirmedSlot lobbyPending ''alice''"
  by (simp add: route_defs example_defs registeredConfirmedSlot_def)

text \<open>
  Claim C1, amended. Against an existing lobby, a join with an account is rejected with
  AlreadyJoined exactly when the passphrase shape check, the capacity and status gate and
  the passphrase comparison have passed and the account's name is the name of a
  registered slot of the lobby, confirmed or not. A name held only by unregistered slots
  does not trigger the rejection.
\<close>

theorem C1_already_joined_iff_registered_slot:
  assumes "findOne db (params_pin req) = Some lobby"
    and "token req = Some t"
  shows "(reply (join_route ct db req) = AlreadyJoined) =
           (passphraseValidator (body_passphrase (req_body req))
          \<and> \<not> noFreeSlots lobby
          \<and> \<not> (with2FA lobby \<and> stored_passphrase lobby \<noteq> body_passphrase (req_body req))
          \<and> (\<exists>p\<in>set (players lobby). registered p \<and> name p = token_name t))"
proof -
  have neq: "AlreadyJoined \<noteq> BadRequest (req_body req)" "AlreadyJoined \<noteq> LobbyFull"
    "AlreadyJoined \<noteq> InvalidPassphrase" "\<And>x. AlreadyJoined \<noteq> PinValid x"
    by (simp_all add: response_defs)
  have dup: "(find (\<lambda>p. name p = token_name t) (filter registered (players lobby)) \<noteq> None)
      = (\<exists>p\<in>set (players lobby). registered p \<and> name p = token_name t)"
    by (rule find_registered_iff)
  have "reply (join_route ct db req) =
      (if \<not> passphraseValidator (body_passphrase (req_body req)) then BadRequest (req_body req)
       else if noFreeSlots lobby then LobbyFull
       else if with2FA lobby \<and> stored_passphrase lobby \<noteq> body_passphrase (req_body req)
         then InvalidPassphrase
       else if find (\<lambda>p. name p = token_name t) (filter registered (players lobby)) \<noteq> None
         then AlreadyJoined
       else PinValid NoData)"
    using assms
    by (simp add: join_route_found join_lobby_def accept_def respond_def split: prod.splits)
  then have "reply (join_route ct db req) =
      (if \<not> passphraseValidator (body_passphrase (req_body req)) then BadRequest (req_body req)
       else if noFreeSlots lobby then LobbyFull
       else if with2FA lobby \<and> stored_passphrase lobby \<noteq> body_passphrase (req_body req)
         then InvalidPassphrase
       else if (\<exists>p\<in>set (players lobby). registered p \<and> name p = token_name t) then AlreadyJoined
       else PinValid NoData)"
    unfolding dup .
  then show ?thesis using neq neq [symmetric] by (auto split: if_splits)
qed

text \<open>
  C1 (amended) at alice's join, which is rejected, and at the join of an account named
  carol into a lobby where only an anonymous player holds that name, which is not.
\<close>

theorem C1_already_joined_iff_registered_slot_witness:
  "findOne [lobbyPending] (params_pin (account ''111111'' 9 ''alice'' Undefined)) = Some lobbyPending
   \<and> token (account ''111111'' 9 ''alice'' Undefined) = Some \<lparr>token_id = 9, token_name = ''alice''\<rparr>
   \<and> reply (join_route exTokens [lobbyPending] (account ''111111'' 9 ''alice'' Undefined))
       = AlreadyJoined
   \<and> findOne [lobbyStale] (params_pin (account ''444444'' 9 ''carol'' Undefined)) = Some lobbyStale
   \<and> token (account ''444444'' 9 ''carol'' Undefined) = Some \<lparr>token_id = 9, token_name = ''carol''\<rparr>
   \<and> reply (join_route exTokens [lobbyStale] (account ''444444'' 9 ''carol'' Undefined))
       \<noteq> AlreadyJoined"
proof -
  let ?alice = "account ''111111'' 9 ''alice'' Undefined"
  let ?carol = "account ''444444'' 9 ''carol'' Undefined"
  have a: "findOne [lobbyPending] (params_pin ?alice) = Some lobbyPending"
    by (simp add: findOne_def lobbyPending_def account_def)
  have b: "token ?alice = Some \<lparr>token_id = 9, token_name = ''alice''\<rparr>"
    by (simp add: account_def)
  have h: "passphraseValidator (body_passphrase (req_body ?alice))
          \<and> \<not> noFreeSlots lobbyPending
          \<and> \<not> (with2FA lobbyPending
               \<and> stored_passphrase lobbyPending \<noteq> body_passphrase (req_body ?alice))
          \<and> (\<exists>p\<in>set (players lobbyPending).
                registered p \<and> name p = token_name \<lparr>token_id = 9, token_name = ''alice''\<rparr>)"
    by (simp add: account_def passphraseValidator_def noFreeSlots_def example_defs)
  have c: "reply (join_route exTokens [lobbyPending] ?alice) = AlreadyJoined"
    by (rule iffD2 [OF C1_already_joined_iff_registered_slot [OF a b] h])
  have d: "findOne [lobbyStale] (params_pin ?carol) = Some lobbyStale"
    by (simp add: findOne_def lobbyStale_def account_def)
  have e: "token ?carol = Some \<lparr>token_id = 9, token_name = ''carol''\<rparr>"
    by (simp add: account_def)
  have n: "\<not> (\<exists>p\<in>set (players lobbyStale).
                registered p \<and> name p = token_name \<lparr>token_id = 9, token_name = ''carol''\<rparr>)"
    by (simp add: example_defs)
  have f: "reply (join_route exTokens [lobbyStale] ?carol) \<noteq> AlreadyJoined"
    using C1_already_joined_iff_registered_slot [OF d e, of exTokens] n by blast
  show ?thesis by (rule conjI [OF a conjI [OF b conjI [OF c conjI [OF d conjI [OF e f]]]]])
qed

subsection \<open>C2: the order of the admission checks\<close>

text \<open>
  Claim C2, as stated: the first failing check wins in the order LobbyFull,
  InvalidPassphrase, AlreadyJoined, BadName or NameTaken; in particular a malformed
  passphrase against a full lobby is rejected with LobbyFull. The route checks the shape of
  the passphrase before the capacity: the three-character passphrase "abc" against a lobby
  whose slots are all confirmed is answered with BadRequest.
\<close>

theorem C2_counterexample:
  "real (length (filter confirmed (players lobbyFull))) = maxPlayers lobbyFull
   \<and> reply (join_route exTokens [lobbyFull] (anonymous ''222222'' (Str ''abc'') (Str ''erin'')))
       = BadRequest \<lparr>body_passphrase = Str ''abc'', body_name = Str ''erin''\<rparr>
   \<and> reply (join_route exTokens [lobbyFull] (anonymous ''222222'' (Str ''abc'') (Str ''erin'')))
       \<noteq> LobbyFull"
  by (simp add: route_defs example_defs response_defs)

text \<open>
  Claim C2, amended. For an existing lobby whose confirmed count is at most \<^verbatim>\<open>maxPlayers\<close>
  and a request whose passphrase passes the shape check (absent, or a string of four code
  units), the first failing check wins in the order: (1) status WAITING and confirmed
  count below \<^verbatim>\<open>maxPlayers\<close>, else LobbyFull; (2) under 2FA the passphrases are equal, else
  InvalidPassphrase; (3) with an account, no registered slot has its name, else
  AlreadyJoined; (4) without an account, the name has the right shape, else the BadRequest
  response (the specification's BadName), and is free, else NameTaken.
\<close>

theorem C2_first_failing_check_wins:
  assumes "findOne db (params_pin req) = Some lobby"
    and "passphraseValidator (body_passphrase (req_body req))"
    and "real (length (filter confirmed (players lobby))) \<le> maxPlayers lobby"
  shows "(\<not> (status lobby = WAITING
            \<and> real (length (filter confirmed (players lobby))) < maxPlayers lobby) \<longrightarrow>
          reply (join_route ct db req) = LobbyFull)
     \<and> (status lobby = WAITING
          \<and> real (length (filter confirmed (players lobby))) < maxPlayers lobby
          \<and> with2FA lobby \<and> stored_passphrase lobby \<noteq> body_passphrase (req_body req) \<longrightarrow>
          reply (join_route ct db req) = InvalidPassphrase)
     \<and> (status lobby = WAITING
          \<and> real (length (filter confirmed (players lobby))) < maxPlayers lobby
          \<and> \<not> (with2FA lobby \<and> stored_passphrase lobby \<noteq> body_passphrase (req_body req))
          \<and> token req = Some t
          \<and> (\<exists>p\<in>set (players lobby). registered p \<and> name p = token_name t) \<longrightarrow>
          reply (join_route ct db req) = AlreadyJoined)
     \<and> (status lobby = WAITING
          \<and> real (length (filter confirmed (players lobby))) < maxPlayers lobby
          \<and> \<not> (with2FA lobby \<and> stored_passphrase lobby \<noteq> body_passphrase (req_body req))
          \<and> token req = None
          \<and> \<not> nameValidator (body_name (req_body req)) \<longrightarrow>
          reply (join_route ct db req) = BadRequest (req_body req))
     \<and> (status lobby = WAITING
          \<and> real (length (filter confirmed (players lobby))) < maxPlayers lobby
          \<and> \<not> (with2FA lobby \<and> stored_passphrase lobby \<noteq> body_passphrase (req_body req))
          \<and> token req = None
          \<and> nameValidator (body_name (req_body req))
          \<and> \<not> checkIfNameFree lobby (body_name (req_body req)) \<longrightarrow>
          reply (join_route ct db req) = NameTaken)"
proof -
  note gate = noFreeSlots_iff [OF assms(3)]
  have r: "reply (join_route ct db req) =
      (case join_lobby ct lobby req of Reject r \<Rightarrow> r | Accept r ps \<Rightarrow> r)"
    using assms(1) by (simp add: join_route_found respond_def split: admission.splits)
  have full: "reply (join_route ct db req) = LobbyFull" if "noFreeSlots lobby"
    using that assms(2) by (simp add: r join_lobby_def)
  have inv: "reply (join_route ct db req) = InvalidPassphrase"
    if "\<not> noFreeSlots lobby" "with2FA lobby"
      "stored_passphrase lobby \<noteq> body_passphrase (req_body req)"
    using that assms(2) by (simp add: r join_lobby_def)
  have dup: "reply (join_route ct db req) = AlreadyJoined"
    if "\<not> noFreeSlots lobby"
      "\<not> (with2FA lobby \<and> stored_passphrase lobby \<noteq> body_passphrase (req_body req))"
      "token req = Some t" "\<exists>p\<in>set (players lobby). registered p \<and> name p = token_name t"
  proof -
    from that(4) have "find (\<lambda>p. name p = token_name t) (filter registered (players lobby)) \<noteq> None"
      by (simp only: find_registered_iff)
    with that(1-3) assms(2) show ?thesis by (auto simp: r join_lobby_def)
  qed
  have shape: "reply (join_route ct db req) = BadRequest (req_body req)"
    if "\<not> noFreeSlots lobby"
      "\<not> (with2FA lobby \<and> stored_passphrase lobby \<noteq> body_passphrase (req_body req))"
      "token req = None" "\<not> nameValidator (body_name (req_body req))"
    using that assms(2) by (auto simp: r join_lobby_def)
  have taken: "reply (join_route ct db req) = NameTaken"
    if "\<not> noFreeSlots lobby"
      "\<not> (with2FA lobby \<and> stored_passphrase lobby \<noteq> body_passphrase (req_body req))"
      "token req = None" "nameValidator (body_name (req_body req))"
      "\<not> checkIfNameFree lobby (body_name (req_body req))"
    using that assms(2) by (auto simp: r join_lobby_def)
  show ?thesis
    using full inv dup shape taken unfolding gate by blast
qed

text \<open>
  C2 (amended) at a well-shaped passphrase and a taken name against a full lobby
  (LobbyFull wins), and at a wrong passphrase and a name with a space against a lobby with
  2FA (InvalidPassphrase wins).
\<close>

theorem C2_first_failing_check_wins_witness:
  "findOne [lobbyFull] (params_pin (anonymous ''222222'' (Str ''XXXX'') (Str ''carol''))) = Some lobbyFull
   \<and> passphraseValidator (body_passphrase (req_body (anonymous ''222222'' (Str ''XXXX'') (Str ''carol''))))
   \<and> real (length (filter confirmed (players lobbyFull))) \<le> maxPlayers lobbyFull
   \<and> \<not> checkIfNameFree lobbyFull (Str ''carol'')
   \<and> reply (join_route exTokens [lobbyFull] (anonymous ''222222'' (Str ''XXXX'') (Str ''carol'')))
       = LobbyFull
   \<and> findOne [lobbyOpen] (params_pin (anonymous ''482913'' (Str ''ABCD'') (Str ''a b''))) = Some lobbyOpen
   \<and> \<not> nameValidator (Str ''a b'')
   \<and> reply (join_route exTokens [lobbyOpen] (anonymous ''482913'' (Str ''ABCD'') (Str ''a b'')))
       = InvalidPassphrase"
proof -
  let ?r1 = "anonymous ''222222'' (Str ''XXXX'') (Str ''carol'')"
  let ?r2 = "anonymous ''482913'' (Str ''ABCD'') (Str ''a b'')"
  have a: "findOne [lobbyFull] (params_pin ?r1) = Some lobbyFull"
    by (simp add: findOne_def lobbyFull_def anonymous_def)
  have b: "passphraseValidator (body_passphrase (req_body ?r1))"
    by (simp add: passphraseValidator_def anonymous_def)
  have c: "real (length (filter confirmed (players lobbyFull))) \<le> maxPlayers lobbyFull"
    by (simp add: example_defs)
  have d: "\<not> checkIfNameFree lobbyFull (Str ''carol'')"
    by (simp add: checkIfNameFree_def example_defs)
  have g: "\<not> (status lobbyFull = WAITING
            \<and> real (length (filter confirmed (players lobbyFull))) < maxPlayers lobbyFull)"
    by (simp add: example_defs)
  have e: "reply (join_route exTokens [lobbyFull] ?r1) = LobbyFull"
    by (rule mp [OF conjunct1 [OF C2_first_failing_check_wins [OF a b c]] g])
  have a2: "findOne [lobbyOpen] (params_pin ?r2) = Some lobbyOpen"
    by (simp add: findOne_def lobbyOpen_def anonymous_def)
  have b2: "passphraseValidator (body_passphrase (req_body ?r2))"
    by (simp add: passphraseValidator_def anonymous_def)
  have c2: "real (length (filter confirmed (players lobbyOpen))) \<le> maxPlayers lobbyOpen"
    by (simp add: example_defs)
  have d2: "\<not> nameValidator (Str ''a b'')"
    by (simp add: nameValidator_def is_space_def)
  have g2: "status lobbyOpen = WAITING
          \<and> real (length (filter confirmed (players lobbyOpen))) < maxPlayers lobbyOpen
          \<and> with2FA lobbyOpen \<and> stored_passphrase lobbyOpen \<noteq> body_passphrase (req_body ?r2)"
    by (simp add: example_defs stored_passphrase_def)
  have e2: "reply (join_route exTokens [lobbyOpen] ?r2) = InvalidPassphrase"
    by (rule mp [OF conjunct1 [OF conjunct2 [OF C2_first_failing_check_wins [OF a2 b2 c2]]] g2])
  show ?thesis
    by (rule conjI [OF a conjI [OF b conjI [OF c conjI [OF d conjI [OF e
          conjI [OF a2 conjI [OF d2 e2]]]]]]])
qed

subsection \<open>C3: the bounds on the players array\<close>

text \<open>
  Claim C3, as stated, has a join against a lobby whose status is not WAITING rejected
  with LobbyFull. With the passphrase "toolong" the route answers such a join with
  BadRequest.
\<close>

theorem C3_counterexample:
  "status lobbyPlaying \<noteq> WAITING
   \<and> real (length (filter confirmed (players lobbyPlaying))) \<le> maxPlayers lobbyPlaying
   \<and> real (length (players lobbyPlaying)) \<le> maxPlayers lobbyPlaying
   \<and> reply (join_route exTokens [lobbyPlaying] (anonymous ''333333'' (Str ''toolong'') (Str ''erin'')))
       = BadRequest \<lparr>body_passphrase = Str ''toolong'', body_name = Str ''erin''\<rparr>
   \<and> reply (join_route exTokens [lobbyPlaying] (anonymous ''333333'' (Str ''toolong'') (Str ''erin'')))
       \<noteq> LobbyFull"
  by (simp add: route_defs example_defs response_defs)

text \<open>
  Claim C3, amended. For an existing lobby with confirmed count and \<^verbatim>\<open>players.length\<close> at most
  \<^verbatim>\<open>maxPlayers\<close>, the players array written by an accepted join has the same confirmed slots
  (the new slot is unconfirmed), so the confirmed count stays at most \<^verbatim>\<open>maxPlayers\<close>, and,
  when \<^verbatim>\<open>maxPlayers\<close> is an integer, its length is at most \<^verbatim>\<open>maxPlayers\<close> again. A join against
  a lobby whose confirmed count equals \<^verbatim>\<open>maxPlayers\<close>, or whose status is not WAITING, is
  rejected and writes nothing: with LobbyFull when the passphrase passes the shape check,
  with BadRequest otherwise.
\<close>

theorem C3_bounds_preserved:
  assumes "findOne db (params_pin req) = Some lobby"
    and "real (length (filter confirmed (players lobby))) \<le> maxPlayers lobby"
    and "real (length (players lobby)) \<le> maxPlayers lobby"
  shows "(ok (reply (join_route ct db req)) \<longrightarrow>
           (\<exists>ps. writes (join_route ct db req) = [UpdatePlayers (lobby_id lobby) ps]
               \<and> stored (join_route ct db req) = findOneAndUpdate db (lobby_id lobby) ps
               \<and> filter confirmed ps = filter confirmed (players lobby)
               \<and> real (length (filter confirmed ps)) \<le> maxPlayers lobby
               \<and> (maxPlayers lobby \<in> \<int> \<longrightarrow> real (length ps) \<le> maxPlayers lobby)))
     \<and> (real (length (filter confirmed (players lobby))) = maxPlayers lobby
          \<or> status lobby \<noteq> WAITING \<longrightarrow>
           join_route ct db req =
             respond (if passphraseValidator (body_passphrase (req_body req))
                      then LobbyFull else BadRequest (req_body req)) db)"
proof -
  have acc: "\<exists>ps. writes (join_route ct db req) = [UpdatePlayers (lobby_id lobby) ps]
               \<and> stored (join_route ct db req) = findOneAndUpdate db (lobby_id lobby) ps
               \<and> filter confirmed ps = filter confirmed (players lobby)
               \<and> real (length (filter confirmed ps)) \<le> maxPlayers lobby
               \<and> (maxPlayers lobby \<in> \<int> \<longrightarrow> real (length ps) \<le> maxPlayers lobby)"
    if "ok (reply (join_route ct db req))"
  proof -
    from join_route_ok [OF assms(1) that] obtain ps where
      a: "join_lobby ct lobby req = Accept (reply (join_route ct db req)) ps" and
      st: "stored (join_route ct db req) = findOneAndUpdate db (lobby_id lobby) ps" and
      wr: "writes (join_route ct db req) = [UpdatePlayers (lobby_id lobby) ps]"
      by blast
    have ps: "ps = place lobby (joiner req)" using a by (rule join_lobby_Accept_place)
    have f: "filter confirmed ps = filter confirmed (players lobby)"
      unfolding ps by (rule place_confirmed) (simp add: joiner_def)
    have l: "real (length ps) \<le> maxPlayers lobby" if whole: "maxPlayers lobby \<in> \<int>"
    proof (cases "real (length (players lobby)) = maxPlayers lobby")
      case True
      then have "length ps = length (players lobby)" by (simp add: ps place_length)
      with assms(3) show ?thesis by simp
    next
      case False
      then have "length ps = Suc (length (players lobby))" by (simp add: ps place_length)
      moreover have "real (Suc (length (players lobby))) \<le> maxPlayers lobby"
        using whole assms(3) False by (rule next_slot_within)
      ultimately show ?thesis by simp
    qed
    from wr st f l assms(2) show ?thesis by simp
  qed
  have rej: "join_route ct db req =
             respond (if passphraseValidator (body_passphrase (req_body req))
                      then LobbyFull else BadRequest (req_body req)) db"
    if "noFreeSlots lobby"
    using that assms(1) by (simp add: join_route_found join_lobby_def)
  show ?thesis using acc rej by (simp add: noFreeSlots_def)
qed

text \<open>
  C3 (amended) at an accepted join into the lobby of three allocated slots, and at a join
  against the lobby whose slots are all confirmed.
\<close>

theorem C3_bounds_preserved_witness:
  "findOne [lobbyStale] (params_pin (anonymous ''444444'' Undefined (Str ''erin''))) = Some lobbyStale
   \<and> real (length (filter confirmed (players lobbyStale))) \<le> maxPlayers lobbyStale
   \<and> real (length (players lobbyStale)) \<le> maxPlayers lobbyStale
   \<and> maxPlayers lobbyStale \<in> \<int>
   \<and> ok (reply (join_route exTokens [lobbyStale] (anonymous ''444444'' Undefined (Str ''erin''))))
   \<and> (\<exists>ps. writes (join_route exTokens [lobbyStale] (anonymous ''444444'' Undefined (Str ''erin'')))
               = [UpdatePlayers (lobby_id lobbyStale) ps]
          \<and> stored (join_route exTokens [lobbyStale] (anonymous ''444444'' Undefined (Str ''erin'')))
               = findOneAndUpdate [lobbyStale] (lobby_id lobbyStale) ps
          \<and> filter confirmed ps = filter confirmed (players lobbyStale)
          \<and> real (length (filter confirmed ps)) \<le> maxPlayers lobbyStale
          \<and> real (length ps) \<le> maxPlayers lobbyStale)
   \<and> findOne [lobbyFull] (params_pin (anonymous ''222222'' Undefined (Str ''erin''))) = Some lobbyFull
   \<and> join_route exTokens [lobbyFull] (anonymous ''222222'' Undefined (Str ''erin''))
       = respond LobbyFull [lobbyFull]"
proof -
  let ?r1 = "anonymous ''444444'' Undefined (Str ''erin'')"
  let ?r2 = "anonymous ''222222'' Undefined (Str ''erin'')"
  have a: "findOne [lobbyStale] (params_pin ?r1) = Some lobbyStale"
    by (simp add: findOne_def lobbyStale_def anonymous_def)
  have b: "real (length (filter confirmed (players lobbyStale))) \<le> maxPlayers lobbyStale"
    by (simp add: example_defs)
  have c: "real (length (players lobbyStale)) \<le> maxPlayers lobbyStale"
    by (simp add: example_defs)
  have w: "maxPlayers lobbyStale \<in> \<int>"
    by (simp add: lobbyStale_def)
  have d: "ok (reply (join_route exTokens [lobbyStale] ?r1))"
    by (simp add: route_defs example_defs response_defs Let_def)
  have e: "\<exists>ps. writes (join_route exTokens [lobbyStale] ?r1)
               = [UpdatePlayers (lobby_id lobbyStale) ps]
          \<and> stored (join_route exTokens [lobbyStale] ?r1)
               = findOneAndUpdate [lobbyStale] (lobby_id lobbyStale) ps
          \<and> filter confirmed ps = filter confirmed (players lobbyStale)
          \<and> real (length (filter confirmed ps)) \<le> maxPlayers lobbyStale
          \<and> real (length ps) \<le> maxPlayers lobbyStale"
    using mp [OF conjunct1 [OF C3_bounds_preserved [OF a b c]] d] w by blast
  have a2: "findOne [lobbyFull] (params_pin ?r2) = Some lobbyFull"
    by (simp add: findOne_def lobbyFull_def anonymous_def)
  have b2: "real (length (filter confirmed (players lobbyFull))) \<le> maxPlayers lobbyFull"
    by (simp add: example_defs)
  have c2: "real (length (players lobbyFull)) \<le> maxPlayers lobbyFull"
    by (simp add: example_defs)
  have g2: "real (length (filter confirmed (players lobbyFull))) = maxPlayers lobbyFull
          \<or> status lobbyFull \<noteq> WAITING"
    by (simp add: example_defs)
  have v2: "passphraseValidator (body_passphrase (req_body ?r2))"
    by (simp add: passphraseValidator_def anonymous_def)
  have "join_route exTokens [lobbyFull] ?r2 =
      respond (if passphraseValidator (body_passphrase (req_body ?r2))
               then LobbyFull else BadRequest (req_body ?r2)) [lobbyFull]"
    by (rule mp [OF conjunct2 [OF C3_bounds_preserved [OF a2 b2 c2]] g2])
  then have e2: "join_route exTokens [lobbyFull] ?r2 = respond LobbyFull [lobbyFull]"
    using v2 by simp
  show ?thesis
    by (rule conjI [OF a conjI [OF b conjI [OF c conjI [OF w conjI [OF d conjI [OF e
          conjI [OF a2 e2]]]]]]])
qed

text \<open>
  The length bound needs the integer: the creation route lets \<^verbatim>\<open>maxPlayers: 2.5\<close> pass, and
  then neither \<^verbatim>\<open>===\<close> test of the join route holds for a lobby of two confirmed players;
  the join is accepted and a third slot is pushed.
\<close>

lemma fractional_maxPlayers_outgrown:
  "real (length (players lobbyFraction)) \<le> maxPlayers lobbyFraction
   \<and> writes (join_route exTokens [lobbyFraction] (anonymous ''555555'' Undefined (Str ''erin'')))
       = [UpdatePlayers 6
           [bob, carol, \<lparr>name = ''erin'', socketId = None, confirmed = False, registered = False\<rparr>]]
   \<and> \<not> real (length [bob, carol,
           \<lparr>name = ''erin'', socketId = None, confirmed = False, registered = False\<rparr>])
         \<le> maxPlayers lobbyFraction"
  by (simp add: route_defs example_defs Let_def)

subsection \<open>C4: slot placement\<close>

text \<open>
  Claim C4. For every accepted join (the route answers with \<open>ok\<close>, and writes the players
  array \<open>ps\<close>): if \<^verbatim>\<open>players.length\<close> equals \<^verbatim>\<open>maxPlayers\<close>, the joiner's slot overwrites the
  first slot with \<open>confirmed = False\<close> (index \<open>i\<close>: unconfirmed, every slot before it
  confirmed) and the array keeps its length; otherwise the joiner's slot is appended. In
  both cases every other slot is unchanged. The joiner's slot has the name of the account
  or, for an anonymous joiner, the name of the body, no socket, \<open>confirmed = False\<close>, and
  \<open>registered\<close> iff the request has an account token.
\<close>

theorem C4_one_slot_changed_or_appended:
  assumes "findOne db (params_pin req) = Some lobby"
    and "ok (reply (join_route ct db req))"
  shows "\<exists>ps.
       writes (join_route ct db req) = [UpdatePlayers (lobby_id lobby) ps]
     \<and> stored (join_route ct db req) = findOneAndUpdate db (lobby_id lobby) ps
     \<and> (token req = None \<longrightarrow> body_name (req_body req) = Str (name (joiner req)))
     \<and> (if real (length (players lobby)) = maxPlayers lobby
        then (\<exists>i<length (players lobby).
                \<not> confirmed (players lobby ! i)
              \<and> (\<forall>j<i. confirmed (players lobby ! j))
              \<and> ps = (players lobby)[i := joiner req]
              \<and> ps ! i = joiner req
              \<and> length ps = length (players lobby)
              \<and> (\<forall>j<length (players lobby). j \<noteq> i \<longrightarrow> ps ! j = players lobby ! j))
        else ps = players lobby @ [joiner req]
           \<and> ps ! length (players lobby) = joiner req
           \<and> length ps = Suc (length (players lobby))
           \<and> (\<forall>j<length (players lobby). ps ! j = players lobby ! j))"
proof -
  from join_route_ok [OF assms] obtain ps where
    acc: "join_lobby ct lobby req = Accept (reply (join_route ct db req)) ps" and
    st: "stored (join_route ct db req) = findOneAndUpdate db (lobby_id lobby) ps" and
    wr: "writes (join_route ct db req) = [UpdatePlayers (lobby_id lobby) ps]"
    by blast
  have ps: "ps = place lobby (joiner req)" using acc by (rule join_lobby_Accept_place)
  have nm: "token req = None \<longrightarrow> body_name (req_body req) = Str (name (joiner req))"
    using join_lobby_Accept_name [OF acc] by blast
  have gate: "\<not> noFreeSlots lobby" using acc by (rule join_lobby_Accept(2))
  let ?xs = "players lobby"
  let ?i = "findIndex (\<lambda>p. \<not> confirmed p) ?xs"
  have shape: "if real (length ?xs) = maxPlayers lobby
        then (\<exists>i<length ?xs.
                \<not> confirmed (?xs ! i)
              \<and> (\<forall>j<i. confirmed (?xs ! j))
              \<and> ps = ?xs[i := joiner req]
              \<and> ps ! i = joiner req
              \<and> length ps = length ?xs
              \<and> (\<forall>j<length ?xs. j \<noteq> i \<longrightarrow> ps ! j = ?xs ! j))
        else ps = ?xs @ [joiner req]
           \<and> ps ! length ?xs = joiner req
           \<and> length ps = Suc (length ?xs)
           \<and> (\<forall>j<length ?xs. ps ! j = ?xs ! j)"
  proof (cases "real (length ?xs) = maxPlayers lobby")
    case False
    then have "ps = ?xs @ [joiner req]" by (simp add: ps place_def)
    with False show ?thesis by (simp add: nth_append)
  next
    case True
    from free_slot_unconfirmed [OF gate True] have "\<not> ?i < 0"
      by (simp add: findIndex_neg_iff)
    then have nn: "0 \<le> ?i" by simp
    have lt: "?i < int (length ?xs)"
      using findIndex_bounds [of "\<lambda>p. \<not> confirmed p" ?xs] by simp
    have ub: "nat ?i < length ?xs" using nn lt by simp
    have first: "\<not> confirmed (?xs ! nat ?i)" "\<forall>j<nat ?i. confirmed (?xs ! j)"
      using findIndex_first [OF nn] by simp_all
    have "ps = assignIndex ?xs ?i (joiner req)"
      using True by (simp add: ps place_def)
    also from nn lt have "\<dots> = ?xs[nat ?i := joiner req]" by (rule assignIndex_inside)
    finally have upd: "ps = ?xs[nat ?i := joiner req]" .
    have "\<not> confirmed (?xs ! nat ?i)
              \<and> (\<forall>j<nat ?i. confirmed (?xs ! j))
              \<and> ps = ?xs[nat ?i := joiner req]
              \<and> ps ! nat ?i = joiner req
              \<and> length ps = length ?xs
              \<and> (\<forall>j<length ?xs. j \<noteq> nat ?i \<longrightarrow> ps ! j = ?xs ! j)"
      using first upd ub by simp
    with ub have "\<exists>i<length ?xs.
                \<not> confirmed (?xs ! i)
              \<and> (\<forall>j<i. confirmed (?xs ! j))
              \<and> ps = ?xs[i := joiner req]
              \<and> ps ! i = joiner req
              \<and> length ps = length ?xs
              \<and> (\<forall>j<length ?xs. j \<noteq> i \<longrightarrow> ps ! j = ?xs ! j)"
      by blast
    with True show ?thesis by simp
  qed
  show ?thesis
    by (rule exI [of _ ps], rule conjI [OF wr conjI [OF st conjI [OF nm shape]]])
qed

text \<open>
  C4 at a lobby of three allocated slots whose second was never confirmed: the join of
  erin overwrites that slot with erin's.
\<close>

theorem C4_one_slot_changed_or_appended_witness:
  "findOne [lobbyStale] (params_pin (anonymous ''444444'' Undefined (Str ''erin''))) = Some lobbyStale
   \<and> ok (reply (join_route exTokens [lobbyStale] (anonymous ''444444'' Undefined (Str ''erin''))))
   \<and> joiner (anonymous ''444444'' Undefined (Str ''erin''))
       = \<lparr>name = ''erin'', socketId = None, confirmed = False, registered = False\<rparr>
   \<and> writes (join_route exTokens [lobbyStale] (anonymous ''444444'' Undefined (Str ''erin'')))
       = [UpdatePlayers 5
           [bob, \<lparr>name = ''erin'', socketId = None, confirmed = False, registered = False\<rparr>, carol]]
   \<and> (\<exists>ps.
         writes (join_route exTokens [lobbyStale] (anonymous ''444444'' Undefined (Str ''erin'')))
           = [UpdatePlayers (lobby_id lobbyStale) ps]
       \<and> stored (join_route exTokens [lobbyStale] (anonymous ''444444'' Undefined (Str ''erin'')))
           = findOneAndUpdate [lobbyStale] (lobby_id lobbyStale) ps
       \<and> (token (anonymous ''444444'' Undefined (Str ''erin'')) = None \<longrightarrow>
            body_name (req_body (anonymous ''444444'' Undefined (Str ''erin'')))
              = Str (name (joiner (anonymous ''444444'' Undefined (Str ''erin'')))))
       \<and> (if real (length (players lobbyStale)) = maxPlayers lobbyStale
          then (\<exists>i<length (players lobbyStale).
                  \<not> confirmed (players lobbyStale ! i)
                \<and> (\<forall>j<i. confirmed (players lobbyStale ! j))
                \<and> ps = (players lobbyStale)[i := joiner (anonymous ''444444'' Undefined (Str ''erin''))]
                \<and> ps ! i = joiner (anonymous ''444444'' Undefined (Str ''erin''))
                \<and> length ps = length (players lobbyStale)
                \<and> (\<forall>j<length (players lobbyStale). j \<noteq> i \<longrightarrow> ps ! j = players lobbyStale ! j))
          else ps = players lobbyStale @ [joiner (anonymous ''444444'' Undefined (Str ''erin''))]
             \<and> ps ! length (players lobbyStale) = joiner (anonymous ''444444'' Undefined (Str ''erin''))
             \<and> length ps = Suc (length (players lobbyStale))
             \<and> (\<forall>j<length (players lobbyStale). ps ! j = players lobbyStale ! j)))"
proof -
  let ?req = "anonymous ''444444'' Undefined (Str ''erin'')"
  have a: "findOne [lobbyStale] (params_pin ?req) = Some lobbyStale"
    by (simp add: findOne_def lobbyStale_def anonymous_def)
  have b: "ok (reply (join_route exTokens [lobbyStale] ?req))"
    by (simp add: route_defs example_defs response_defs Let_def)
  have j: "joiner ?req = \<lparr>name = ''erin'', socketId = None, confirmed = False, registered = False\<rparr>"
    by (simp add: joiner_def anonymous_def asString_def)
  have c: "writes (join_route exTokens [lobbyStale] ?req)
       = [UpdatePlayers 5
           [bob, \<lparr>name = ''erin'', socketId = None, confirmed = False, registered = False\<rparr>, carol]]"
    by (simp add: route_defs example_defs Let_def)
  show ?thesis
    by (rule conjI [OF a conjI [OF b conjI [OF j conjI [OF c
          C4_one_slot_changed_or_appended [OF a b]]]]])
qed

subsection \<open>C5: a rejected join writes nothing\<close>

text \<open>
  Claim C5. If the join route rejects (NotFound, BadRequest, LobbyFull, InvalidPassphrase,
  AlreadyJoined, NameTaken; the name shape check answers with the BadRequest response
  too), no write is issued and the collection is unchanged; every response that is not
  \<open>ok\<close> is one of these; a write is issued only together with the \<open>ok\<close> response.
\<close>

theorem C5_reject_writes_nothing:
  "(reply (join_route ct db req) \<in>
      {NotFound, BadRequest (req_body req), LobbyFull, InvalidPassphrase, AlreadyJoined, NameTaken}
      \<longrightarrow> stored (join_route ct db req) = db \<and> writes (join_route ct db req) = [])
   \<and> (\<not> ok (reply (join_route ct db req)) \<longrightarrow>
        reply (join_route ct db req) \<in>
          {NotFound, BadRequest (req_body req), LobbyFull, InvalidPassphrase, AlreadyJoined, NameTaken})
   \<and> (writes (join_route ct db req) \<noteq> [] \<longrightarrow> ok (reply (join_route ct db req)))"
proof -
  let ?o = "join_route ct db req"
  have notok: "\<not> ok r"
    if "r \<in> {NotFound, BadRequest (req_body req), LobbyFull, InvalidPassphrase, AlreadyJoined, NameTaken}"
    for r using that by (auto simp: response_defs)
  have same: "stored ?o = db \<and> writes ?o = []" if "\<not> ok (reply ?o)"
  proof -
    from join_route_not_ok [OF that] have "?o = respond (reply ?o) db" .
    then have "stored ?o = stored (respond (reply ?o) db)" "writes ?o = writes (respond (reply ?o) db)"
      by simp_all
    then show ?thesis by (simp add: respond_def)
  qed
  have kinds: "reply ?o \<in>
          {NotFound, BadRequest (req_body req), LobbyFull, InvalidPassphrase, AlreadyJoined, NameTaken}"
    if "\<not> ok (reply ?o)"
  proof (cases "findOne db (params_pin req)")
    case None
    then show ?thesis by (simp add: join_route_def respond_def)
  next
    case (Some lobby)
    show ?thesis
    proof (cases "join_lobby ct lobby req")
      case (Accept r ps)
      then have "ok r" by (rule join_lobby_Accept_ok)
      with that Some Accept show ?thesis by (simp add: join_route_found)
    next
      case (Reject r)
      then have "r \<in> {NotFound, BadRequest (req_body req), LobbyFull, InvalidPassphrase, AlreadyJoined, NameTaken}"
        by (auto simp: join_lobby_def accept_def Let_def split: if_splits option.splits prod.splits)
      with Some Reject show ?thesis by (simp add: join_route_found respond_def)
    qed
  qed
  from notok same kinds show ?thesis by blast
qed

text \<open>
  C5 at a join against a lobby whose slots are all confirmed.
\<close>

theorem C5_reject_writes_nothing_witness:
  "reply (join_route exTokens [lobbyFull] (anonymous ''222222'' Undefined (Str ''erin''))) = LobbyFull
   \<and> stored (join_route exTokens [lobbyFull] (anonymous ''222222'' Undefined (Str ''erin''))) = [lobbyFull]
   \<and> writes (join_route exTokens [lobbyFull] (anonymous ''222222'' Undefined (Str ''erin''))) = []"
proof -
  let ?req = "anonymous ''222222'' Undefined (Str ''erin'')"
  have r: "reply (join_route exTokens [lobbyFull] ?req) = LobbyFull"
    by (simp add: route_defs example_defs)
  then have m: "reply (join_route exTokens [lobbyFull] ?req) \<in>
      {NotFound, BadRequest (req_body ?req), LobbyFull, InvalidPassphrase, AlreadyJoined, NameTaken}"
    by simp
  have u: "stored (join_route exTokens [lobbyFull] ?req) = [lobbyFull]
     \<and> writes (join_route exTokens [lobbyFull] ?req) = []"
    by (rule mp [OF conjunct1 [OF C5_reject_writes_nothing] m])
  show ?thesis by (rule conjI [OF r u])
qed

subsection \<open>C6: the name probe and the join agree\<close>

text \<open>
  Claim C6. Against an existing lobby, the name route with a name in the body reports the
  name taken iff a confirmed slot has exactly that name, and free otherwise; it writes
  nothing. The join route makes the same test (both call \<^verbatim>\<open>checkIfNameFree\<close> on the lobby
  and the body's name): if the probe reports a name free, a join with that name against
  the same collection is not rejected with NameTaken, and an anonymous join that
  satisfies the other admission checks is accepted.
\<close>

theorem C6_check_name_agrees_with_join:
  assumes "findOne db (params_pin req) = Some lobby"
    and "body_name (req_body req) \<noteq> Undefined"
    and "params_pin req' = params_pin req"
    and "body_name (req_body req') = body_name (req_body req)"
  shows "((reply (name_route db req) = NameTakenProbe) =
            (\<exists>p\<in>set (players lobby). confirmed p \<and> Str (name p) = body_name (req_body req)))
     \<and> ((reply (name_route db req) = NameFree) =
            (\<not> (\<exists>p\<in>set (players lobby). confirmed p \<and> Str (name p) = body_name (req_body req))))
     \<and> stored (name_route db req) = db \<and> writes (name_route db req) = []
     \<and> (reply (name_route db req) = NameFree \<longrightarrow> reply (join_route ct db req') \<noteq> NameTaken)
     \<and> (reply (name_route db req) = NameFree
          \<and> token req' = None
          \<and> passphraseValidator (body_passphrase (req_body req'))
          \<and> \<not> noFreeSlots lobby
          \<and> \<not> (with2FA lobby \<and> stored_passphrase lobby \<noteq> body_passphrase (req_body req'))
          \<and> nameValidator (body_name (req_body req')) \<longrightarrow>
          ok (reply (join_route ct db req')))"
proof -
  let ?taken = "\<exists>p\<in>set (players lobby). confirmed p \<and> Str (name p) = body_name (req_body req)"
  have probe: "name_route db req = respond (if ?taken then NameTakenProbe else NameFree) db"
    using assms(1,2) by (auto simp: name_route_def checkIfNameFree_iff)
  have ne: "NameTakenProbe \<noteq> NameFree" by (simp add: response_defs)
  have p1: "(reply (name_route db req) = NameTakenProbe) = ?taken"
    using ne by (simp add: probe respond_def)
  have p2: "(reply (name_route db req) = NameFree) = (\<not> ?taken)"
    using ne by (simp add: probe respond_def)
  have p3: "stored (name_route db req) = db \<and> writes (name_route db req) = []"
    by (simp add: probe respond_def)
  have found': "findOne db (params_pin req') = Some lobby" using assms(1,3) by simp
  have free: "checkIfNameFree lobby (body_name (req_body req'))" if "\<not> ?taken"
    using that assms(4) by (simp add: checkIfNameFree_iff)
  have kinds: "NameTaken \<noteq> BadRequest b" "NameTaken \<noteq> LobbyFull" "NameTaken \<noteq> InvalidPassphrase"
    "NameTaken \<noteq> AlreadyJoined" "NameTaken \<noteq> PinValid x" for b x
    by (simp_all add: response_defs)
  have p4: "reply (join_route ct db req') \<noteq> NameTaken" if "\<not> ?taken"
    using free [OF that] kinds kinds [symmetric]
    by (auto simp: join_route_found [OF found'] join_lobby_def accept_def respond_def
        split: option.splits prod.splits)
  have p5: "ok (reply (join_route ct db req'))"
    if "\<not> ?taken" "token req' = None" "passphraseValidator (body_passphrase (req_body req'))"
      "\<not> noFreeSlots lobby"
      "\<not> (with2FA lobby \<and> stored_passphrase lobby \<noteq> body_passphrase (req_body req'))"
      "nameValidator (body_name (req_body req'))"
    using free [OF that(1)] that(2-6)
    by (auto simp: join_route_found [OF found'] join_lobby_def accept_def PinValid_def json_def
        split: prod.splits)
  show ?thesis using p1 p2 p3 p4 p5 by blast
qed

text \<open>
  C6 at a lobby where carol is confirmed and dave holds an unconfirmed slot: "carol" is
  taken, "Carol" and "dave" are free, and the join as dave is accepted.
\<close>

theorem C6_check_name_agrees_with_join_witness:
  "findOne [lobbyStale] (params_pin (anonymous ''444444'' Undefined (Str ''carol''))) = Some lobbyStale
   \<and> reply (name_route [lobbyStale] (anonymous ''444444'' Undefined (Str ''carol''))) = NameTakenProbe
   \<and> reply (name_route [lobbyStale] (anonymous ''444444'' Undefined (Str ''Carol''))) = NameFree
   \<and> reply (name_route [lobbyStale] (anonymous ''444444'' Undefined (Str ''dave''))) = NameFree
   \<and> ok (reply (join_route exTokens [lobbyStale] (anonymous ''444444'' Undefined (Str ''dave''))))"
proof -
  let ?carol = "anonymous ''444444'' Undefined (Str ''carol'')"
  let ?Carol = "anonymous ''444444'' Undefined (Str ''Carol'')"
  let ?dave = "anonymous ''444444'' Undefined (Str ''dave'')"
  have a: "findOne [lobbyStale] (params_pin r) = Some lobbyStale"
    if "r \<in> {?carol, ?Carol, ?dave}" for r
    using that by (auto simp: findOne_def lobbyStale_def anonymous_def)
  have p: "body_name (req_body r) \<noteq> Undefined" if "r \<in> {?carol, ?Carol, ?dave}" for r
    using that by (auto simp: anonymous_def)
  have t1: "\<exists>p\<in>set (players lobbyStale). confirmed p \<and> Str (name p) = body_name (req_body ?carol)"
    by (simp add: example_defs)
  have t2: "\<not> (\<exists>p\<in>set (players lobbyStale). confirmed p \<and> Str (name p) = body_name (req_body ?Carol))"
    by (simp add: example_defs)
  have t3: "\<not> (\<exists>p\<in>set (players lobbyStale). confirmed p \<and> Str (name p) = body_name (req_body ?dave))"
    by (simp add: example_defs)
  have a1: "findOne [lobbyStale] (params_pin ?carol) = Some lobbyStale" by (rule a) simp
  have c1: "reply (name_route [lobbyStale] ?carol) = NameTakenProbe"
    using C6_check_name_agrees_with_join [OF a1 p refl refl, of exTokens] t1 by blast
  have a2: "findOne [lobbyStale] (params_pin ?Carol) = Some lobbyStale" by (rule a) simp
  have c2: "reply (name_route [lobbyStale] ?Carol) = NameFree"
    using C6_check_name_agrees_with_join [OF a2 p refl refl, of exTokens] t2 by blast
  have a3: "findOne [lobbyStale] (params_pin ?dave) = Some lobbyStale" by (rule a) simp
  have c3: "reply (name_route [lobbyStale] ?dave) = NameFree"
    using C6_check_name_agrees_with_join [OF a3 p refl refl, of exTokens] t3 by blast
  have pre: "token ?dave = None
          \<and> passphraseValidator (body_passphrase (req_body ?dave))
          \<and> \<not> noFreeSlots lobbyStale
          \<and> \<not> (with2FA lobbyStale \<and> stored_passphrase lobbyStale \<noteq> body_passphrase (req_body ?dave))
          \<and> nameValidator (body_name (req_body ?dave))"
    by (simp add: anonymous_def passphraseValidator_def noFreeSlots_def nameValidator_def
        is_space_def example_defs)
  have c4: "ok (reply (join_route exTokens [lobbyStale] ?dave))"
    using C6_check_name_agrees_with_join [OF a3 p refl refl, of exTokens] c3 pre by blast
  show ?thesis by (rule conjI [OF a1 conjI [OF c1 conjI [OF c2 conjI [OF c3 c4]]]])
qed

subsection \<open>C7: credentials for anonymous joiners only\<close>

text \<open>
  Claim C7. For every accepted join, the success response carries \<^verbatim>\<open>token\<close> and
  \<^verbatim>\<open>refreshToken\<close> iff the request has no account token; then they are the pair that
  \<^verbatim>\<open>createTokens\<close> made for the name and the pin. A joiner with an account token gets a
  success response without credentials.
\<close>

theorem C7_credentials_iff_anonymous:
  assumes "findOne db (params_pin req) = Some lobby"
    and "ok (reply (join_route ct db req))"
  shows "((\<exists>a b. payload (reply (join_route ct db req)) = Tokens a b) = (token req = None))
       \<and> (token req = None \<longrightarrow>
            payload (reply (join_route ct db req)) =
              Tokens (fst (ct (asString (body_name (req_body req))) (params_pin req)))
                     (snd (ct (asString (body_name (req_body req))) (params_pin req))))
       \<and> (token req \<noteq> None \<longrightarrow> payload (reply (join_route ct db req)) = NoData)"
proof -
  from join_route_ok [OF assms] obtain ps where
    acc: "join_lobby ct lobby req = Accept (reply (join_route ct db req)) ps"
    by blast
  show ?thesis
  proof (cases "token req")
    case None
    with acc have "accept ct lobby req (asString (body_name (req_body req))) False
        = Accept (reply (join_route ct db req)) ps"
      by (simp add: join_lobby_def split: if_splits)
    from accept_cases(2) [OF this] None show ?thesis
      by (simp add: PinValid_def json_def)
  next
    case (Some t)
    with acc have "accept ct lobby req (token_name t) True
        = Accept (reply (join_route ct db req)) ps"
      by (simp add: join_lobby_def split: if_splits)
    from accept_cases(2) [OF this] Some show ?thesis
      by (simp add: PinValid_def json_def)
  qed
qed

text \<open>
  C7 at an anonymous join and at a join with an account, both accepted by the same lobby.
\<close>

theorem C7_credentials_iff_anonymous_witness:
  "findOne [lobbyOpen] (params_pin (anonymous ''482913'' (Str ''Q7ZK'') (Str ''alice''))) = Some lobbyOpen
   \<and> ok (reply (join_route exTokens [lobbyOpen] (anonymous ''482913'' (Str ''Q7ZK'') (Str ''alice''))))
   \<and> payload (reply (join_route exTokens [lobbyOpen] (anonymous ''482913'' (Str ''Q7ZK'') (Str ''alice''))))
       = Tokens ''access/alice/482913'' ''refresh/alice/482913''
   \<and> findOne [lobbyOpen] (params_pin (account ''482913'' 9 ''zoe'' (Str ''Q7ZK''))) = Some lobbyOpen
   \<and> ok (reply (join_route exTokens [lobbyOpen] (account ''482913'' 9 ''zoe'' (Str ''Q7ZK''))))
   \<and> payload (reply (join_route exTokens [lobbyOpen] (account ''482913'' 9 ''zoe'' (Str ''Q7ZK''))))
       = NoData"
proof -
  let ?anon = "anonymous ''482913'' (Str ''Q7ZK'') (Str ''alice'')"
  let ?acct = "account ''482913'' 9 ''zoe'' (Str ''Q7ZK'')"
  have a: "findOne [lobbyOpen] (params_pin ?anon) = Some lobbyOpen"
    by (simp add: findOne_def lobbyOpen_def anonymous_def)
  have b: "ok (reply (join_route exTokens [lobbyOpen] ?anon))"
    by (simp add: route_defs example_defs response_defs Let_def)
  have n: "token ?anon = None" by (simp add: anonymous_def)
  have "payload (reply (join_route exTokens [lobbyOpen] ?anon)) =
      Tokens (fst (exTokens (asString (body_name (req_body ?anon))) (params_pin ?anon)))
             (snd (exTokens (asString (body_name (req_body ?anon))) (params_pin ?anon)))"
    by (rule mp [OF conjunct1 [OF conjunct2 [OF C7_credentials_iff_anonymous [OF a b]]] n])
  then have c: "payload (reply (join_route exTokens [lobbyOpen] ?anon))
       = Tokens ''access/alice/482913'' ''refresh/alice/482913''"
    by (simp add: anonymous_def asString_def exTokens_def)
  have d: "findOne [lobbyOpen] (params_pin ?acct) = Some lobbyOpen"
    by (simp add: findOne_def lobbyOpen_def account_def)
  have e: "ok (reply (join_route exTokens [lobbyOpen] ?acct))"
    by (simp add: route_defs example_defs response_defs Let_def)
  have m: "token ?acct \<noteq> None" by (simp add: account_def)
  have f: "payload (reply (join_route exTokens [lobbyOpen] ?acct)) = NoData"
    by (rule mp [OF conjunct2 [OF conjunct2 [OF C7_credentials_iff_anonymous [OF d e]]] m])
  show ?thesis by (rule conjI [OF a conjI [OF b conjI [OF c conjI [OF d conjI [OF e f]]]]])
qed

subsection \<open>C8: only the owner deletes\<close>

text \<open>
  Claim C8. In a collection with one document per pin, for an existing lobby: the delete
  route with the token of an account other than the owner's answers Unauthorized, writes
  nothing and emits nothing. With the owner's token and a deletion that succeeds, the
  document is removed, so that the inspect route finds no lobby for the pin afterwards,
  and the closure event with reason "lobby_closed" is emitted. When the database reports
  an error the collection is as before and nothing is emitted: the event is emitted only
  together with the success response.
\<close>

theorem C8_delete_owner_only:
  assumes "findOne db (params_pin req) = Some lobby"
    and "distinct (map pin db)"
    and "token req = Some t"
    and "params_pin req' = params_pin req"
  shows "(token_id t \<noteq> owner lobby \<longrightarrow> delete_route delete_err db req = respond Unauthorized db)
     \<and> (token_id t = owner lobby \<and> \<not> delete_err \<longrightarrow>
          reply (delete_route delete_err db req) = Deleted
        \<and> set (stored (delete_route delete_err db req)) = set db - {lobby}
        \<and> findOne (stored (delete_route delete_err db req)) (params_pin req) = None
        \<and> reply (get_route (stored (delete_route delete_err db req)) req') = NotFound
        \<and> emitted (delete_route delete_err db req) = [Close (params_pin req) ''lobby_closed''])
     \<and> (token_id t = owner lobby \<and> delete_err \<longrightarrow>
          reply (delete_route delete_err db req) = DeleteFailed
        \<and> stored (delete_route delete_err db req) = db
        \<and> emitted (delete_route delete_err db req) = [])
     \<and> (emitted (delete_route delete_err db req) \<noteq> [] \<longrightarrow>
          reply (delete_route delete_err db req) = Deleted)"
proof -
  let ?o = "delete_route delete_err db req"
  have own: "ownerEquals lobby req = (token_id t = owner lobby)"
    using assms(3) by (auto simp: ownerEquals_def)
  have un: "?o = respond Unauthorized db" if "token_id t \<noteq> owner lobby"
    using that assms(1) by (simp add: delete_route_def own)
  have fail: "reply ?o = DeleteFailed \<and> stored ?o = db \<and> emitted ?o = []"
    if "token_id t = owner lobby" "delete_err"
    using that assms(1) by (simp add: delete_route_def own)
  have del: "reply ?o = Deleted \<and> stored ?o = deleteOne db (params_pin req)
      \<and> emitted ?o = [Close (params_pin req) ''lobby_closed'']"
    if "token_id t = owner lobby" "\<not> delete_err"
    using that assms(1) by (simp add: delete_route_def own)
  have gone: "findOne (deleteOne db (params_pin req)) (params_pin req) = None"
    using assms(2) by (rule findOne_deleteOne)
  have rest: "set (deleteOne db (params_pin req)) = set db - {lobby}"
    using assms(2,1) by (rule set_deleteOne)
  have insp: "reply (get_route (deleteOne db (params_pin req)) req') = NotFound"
    using gone assms(4) by (simp add: get_route_def respond_def)
  have ev: "reply ?o = Deleted" if "emitted ?o \<noteq> []"
    using that assms(1) by (simp add: delete_route_def respond_def split: if_splits)
  show ?thesis using un fail del gone rest insp ev by auto
qed

text \<open>
  C8 at a collection of two lobbies: zoe may not delete bob's lobby, bob may.
\<close>

theorem C8_delete_owner_only_witness:
  "findOne [lobbyOpen, lobbyFull] (params_pin (account ''482913'' 7 ''bob'' Undefined)) = Some lobbyOpen
   \<and> distinct (map pin [lobbyOpen, lobbyFull])
   \<and> delete_route False [lobbyOpen, lobbyFull] (account ''482913'' 9 ''zoe'' Undefined)
       = respond Unauthorized [lobbyOpen, lobbyFull]
   \<and> reply (delete_route False [lobbyOpen, lobbyFull] (account ''482913'' 7 ''bob'' Undefined))
       = Deleted
   \<and> stored (delete_route False [lobbyOpen, lobbyFull] (account ''482913'' 7 ''bob'' Undefined))
       = [lobbyFull]
   \<and> reply (get_route
        (stored (delete_route False [lobbyOpen, lobbyFull] (account ''482913'' 7 ''bob'' Undefined)))
        (anonymous ''482913'' Undefined Undefined)) = NotFound
   \<and> emitted (delete_route False [lobbyOpen, lobbyFull] (account ''482913'' 7 ''bob'' Undefined))
       = [Close ''482913'' ''lobby_closed'']"
proof -
  let ?db = "[lobbyOpen, lobbyFull]"
  let ?bob = "account ''482913'' 7 ''bob'' Undefined"
  let ?zoe = "account ''482913'' 9 ''zoe'' Undefined"
  let ?look = "anonymous ''482913'' Undefined Undefined"
  have a: "findOne ?db (params_pin ?bob) = Some lobbyOpen"
    by (simp add: findOne_def lobbyOpen_def account_def)
  have az: "findOne ?db (params_pin ?zoe) = Some lobbyOpen"
    by (simp add: findOne_def lobbyOpen_def account_def)
  have u: "distinct (map pin ?db)" by (simp add: example_defs)
  have tb: "token ?bob = Some \<lparr>token_id = 7, token_name = ''bob''\<rparr>" by (simp add: account_def)
  have tz: "token ?zoe = Some \<lparr>token_id = 9, token_name = ''zoe''\<rparr>" by (simp add: account_def)
  have pb: "params_pin ?look = params_pin ?bob" by (simp add: account_def anonymous_def)
  have pz: "params_pin ?look = params_pin ?zoe" by (simp add: account_def anonymous_def)
  have nz: "token_id \<lparr>token_id = 9, token_name = ''zoe''\<rparr> \<noteq> owner lobbyOpen"
    by (simp add: lobbyOpen_def)
  have ob: "token_id \<lparr>token_id = 7, token_name = ''bob''\<rparr> = owner lobbyOpen \<and> \<not> False"
    by (simp add: lobbyOpen_def)
  have c1: "delete_route False ?db ?zoe = respond Unauthorized ?db"
    by (rule mp [OF conjunct1 [OF C8_delete_owner_only [OF az u tz pz]] nz])
  note d = mp [OF conjunct1 [OF conjunct2 [OF C8_delete_owner_only [OF a u tb pb]]] ob]
  have c2: "reply (delete_route False ?db ?bob) = Deleted" using d by blast
  have c3: "stored (delete_route False ?db ?bob) = [lobbyFull]"
    by (simp add: delete_route_def findOne_def ownerEquals_def example_defs)
  have c4: "reply (get_route (stored (delete_route False ?db ?bob)) ?look) = NotFound"
    using d by blast
  have c5: "emitted (delete_route False ?db ?bob) = [Close ''482913'' ''lobby_closed'']"
    using d by (simp add: account_def)
  show ?thesis
    by (rule conjI [OF a conjI [OF u conjI [OF c1 conjI [OF c2 conjI [OF c3 conjI [OF c4 c5]]]]]])
qed

subsection \<open>C9: the overwritten index is in bounds\<close>

text \<open>
  Claim C9. Whenever the slot placement is reached (the join is accepted) with
  \<^verbatim>\<open>players.length === maxPlayers\<close>, the array holds an unconfirmed slot, so \<^verbatim>\<open>findIndex\<close>
  does not return -1: its result is an index within the array, of an unconfirmed slot.
\<close>

theorem C9_overwrite_index_valid:
  assumes "join_lobby ct lobby req = Accept r ps"
    and "real (length (players lobby)) = maxPlayers lobby"
  shows "(\<exists>p\<in>set (players lobby). \<not> confirmed p)
       \<and> findIndex (\<lambda>p. \<not> confirmed p) (players lobby) \<noteq> - 1
       \<and> 0 \<le> findIndex (\<lambda>p. \<not> confirmed p) (players lobby)
       \<and> findIndex (\<lambda>p. \<not> confirmed p) (players lobby) < int (length (players lobby))
       \<and> \<not> confirmed (players lobby ! nat (findIndex (\<lambda>p. \<not> confirmed p) (players lobby)))"
proof -
  let ?i = "findIndex (\<lambda>p. \<not> confirmed p) (players lobby)"
  have gate: "\<not> noFreeSlots lobby" using assms(1) by (rule join_lobby_Accept(2))
  have ex: "\<exists>p\<in>set (players lobby). \<not> confirmed p"
    using gate assms(2) by (rule free_slot_unconfirmed)
  then have "\<not> ?i < 0" by (simp add: findIndex_neg_iff)
  then have nn: "0 \<le> ?i" by simp
  have ub: "?i < int (length (players lobby))" using findIndex_bounds [of _ "players lobby"] by simp
  have "\<not> confirmed (players lobby ! nat ?i)" using findIndex_first [OF nn] by simp
  with ex nn ub show ?thesis by simp
qed

text \<open>
  C9 at the lobby of three allocated slots: the index found is 1.
\<close>

theorem C9_overwrite_index_valid_witness:
  "join_lobby exTokens lobbyStale (anonymous ''444444'' Undefined (Str ''erin''))
     = Accept (PinValid (Tokens ''access/erin/444444'' ''refresh/erin/444444''))
         [bob, \<lparr>name = ''erin'', socketId = None, confirmed = False, registered = False\<rparr>, carol]
   \<and> real (length (players lobbyStale)) = maxPlayers lobbyStale
   \<and> findIndex (\<lambda>p. \<not> confirmed p) (players lobbyStale) = 1
   \<and> 0 \<le> findIndex (\<lambda>p. \<not> confirmed p) (players lobbyStale)
   \<and> findIndex (\<lambda>p. \<not> confirmed p) (players lobbyStale) < int (length (players lobbyStale))"
proof -
  let ?i = "findIndex (\<lambda>p. \<not> confirmed p) (players lobbyStale)"
  have a: "join_lobby exTokens lobbyStale (anonymous ''444444'' Undefined (Str ''erin''))
     = Accept (PinValid (Tokens ''access/erin/444444'' ''refresh/erin/444444''))
         [bob, \<lparr>name = ''erin'', socketId = None, confirmed = False, registered = False\<rparr>, carol]"
    by (simp add: route_defs example_defs Let_def)
  have b: "real (length (players lobbyStale)) = maxPlayers lobbyStale"
    by (simp add: example_defs)
  have c: "?i = 1"
    by (simp add: example_defs Let_def)
  note t = C9_overwrite_index_valid [OF a b]
  have d: "0 \<le> ?i" by (rule conjunct1 [OF conjunct2 [OF conjunct2 [OF t]]])
  have e: "?i < int (length (players lobbyStale))"
    by (rule conjunct1 [OF conjunct2 [OF conjunct2 [OF conjunct2 [OF t]]]])
  show ?thesis by (rule conjI [OF a conjI [OF b conjI [OF c conjI [OF d e]]]])
qed

subsection \<open>C10: the passphrase shape check comes first\<close>

text \<open>
  Claim C10. Against an existing lobby, a join whose body has a passphrase that is a
  string of a length other than 4 (or is no string at all) is answered with BadRequest,
  whatever the capacity, the status and the 2FA setting of the lobby, and nothing is
  written. An absent passphrase passes the shape check: the route goes on to the capacity
  gate (LobbyFull), to the passphrase comparison (InvalidPassphrase under 2FA) and, for a
  free valid name in a lobby without 2FA, to acceptance.
\<close>

theorem C10_passphrase_shape_first:
  assumes "findOne db (params_pin req) = Some lobby"
  shows "(body_passphrase (req_body req) = Str s \<and> length s \<noteq> 4 \<longrightarrow>
            join_route ct db req = respond (BadRequest (req_body req)) db)
       \<and> (body_passphrase (req_body req) = Other \<longrightarrow>
            join_route ct db req = respond (BadRequest (req_body req)) db)
       \<and> (body_passphrase (req_body req) = Undefined \<longrightarrow>
            passphraseValidator (body_passphrase (req_body req))
          \<and> (noFreeSlots lobby \<longrightarrow> join_route ct db req = respond LobbyFull db)
          \<and> (\<not> noFreeSlots lobby \<and> with2FA lobby \<and> passphrase lobby \<noteq> None \<longrightarrow>
                join_route ct db req = respond InvalidPassphrase db)
          \<and> (\<not> noFreeSlots lobby \<and> \<not> with2FA lobby \<and> token req = None
                \<and> nameValidator (body_name (req_body req))
                \<and> checkIfNameFree lobby (body_name (req_body req)) \<longrightarrow>
                ok (reply (join_route ct db req))))"
proof -
  have bad: "join_route ct db req = respond (BadRequest (req_body req)) db"
    if "\<not> passphraseValidator (body_passphrase (req_body req))"
    using that assms by (simp add: join_route_def join_lobby_def)
  have absent: "passphraseValidator Undefined" by (simp add: passphraseValidator_def)
  have ok_accept: "ok (reply (join_route ct db req))"
    if "body_passphrase (req_body req) = Undefined" "\<not> noFreeSlots lobby" "\<not> with2FA lobby"
      "token req = None" "nameValidator (body_name (req_body req))"
      "checkIfNameFree lobby (body_name (req_body req))"
    using that assms absent
    by (simp add: join_route_def join_lobby_def accept_def Let_def PinValid_def json_def
        split: prod.splits)
  have inv: "join_route ct db req = respond InvalidPassphrase db"
    if "body_passphrase (req_body req) = Undefined" "\<not> noFreeSlots lobby" "with2FA lobby"
      "passphrase lobby \<noteq> None"
    using that assms absent
    by (auto simp: join_route_def join_lobby_def stored_passphrase_def)
  have full: "join_route ct db req = respond LobbyFull db"
    if "body_passphrase (req_body req) = Undefined" "noFreeSlots lobby"
    using that assms absent by (simp add: join_route_def join_lobby_def)
  show ?thesis
    using bad absent ok_accept inv full by (simp add: passphraseValidator_def)
qed

text \<open>
  C10 at a lobby without 2FA and with free slots: the passphrase "abc" is rejected.
\<close>

theorem C10_passphrase_shape_first_witness:
  "findOne [lobbyPending] (params_pin (anonymous ''111111'' (Str ''abc'') (Str ''erin''))) = Some lobbyPending
   \<and> \<not> with2FA lobbyPending
   \<and> join_route exTokens [lobbyPending] (anonymous ''111111'' (Str ''abc'') (Str ''erin''))
       = respond (BadRequest \<lparr>body_passphrase = Str ''abc'', body_name = Str ''erin''\<rparr>) [lobbyPending]"
proof -
  let ?req = "anonymous ''111111'' (Str ''abc'') (Str ''erin'')"
  have a: "findOne [lobbyPending] (params_pin ?req) = Some lobbyPending"
    by (simp add: findOne_def lobbyPending_def anonymous_def)
  have b: "\<not> with2FA lobbyPending" by (simp add: lobbyPending_def)
  have s: "body_passphrase (req_body ?req) = Str ''abc'' \<and> length ''abc'' \<noteq> 4"
    by (simp add: anonymous_def)
  have body: "req_body ?req = \<lparr>body_passphrase = Str ''abc'', body_name = Str ''erin''\<rparr>"
    by (simp add: anonymous_def)
  have "join_route exTokens [lobbyPending] ?req = respond (BadRequest (req_body ?req)) [lobbyPending]"
    by (rule mp [OF conjunct1 [OF C10_passphrase_shape_first [OF a]] s])
  then have c: "join_route exTokens [lobbyPending] ?req
       = respond (BadRequest \<lparr>body_passphrase = Str ''abc'', body_name = Str ''erin''\<rparr>) [lobbyPending]"
    unfolding body .
  show ?thesis by (rule conjI [OF a conjI [OF b c]])
qed

end
